theory Spec2Isabelle
  imports Complex_Main "HOL-Library.Log_Nat" "HOL-Library.Product_Lexorder"
begin

section \<open>The outlier detection cell of \<open>explore_data.ipynb\<close>\<close>

text \<open>
  The notebook \<open>src/ai/notebooks/explore_data.ipynb\<close> selects the numerical columns of a
  pandas DataFrame (Section 5) and, in Section 9, runs for each of them
  \<^verbatim>\<open>
  for col in numerical_cols:
      Q1 = df[col].quantile(0.25)
      Q3 = df[col].quantile(0.75)
      IQR = Q3 - Q1
      lower_bound = Q1 - 1.5 * IQR
      upper_bound = Q3 + 1.5 * IQR
      outliers = df[(df[col] < lower_bound) | (df[col] > upper_bound)][col]
      print(f"\nOutliers in {col}:")
      print(f"Number of outliers: {len(outliers)}")
      if len(outliers) > 0:
          print(outliers.head())
  \<close>
  The loop body is the specification's \<open>scan(table, column)\<close>. The plotting loop in front
  of it draws figures only and is left out.
\<close>

subsection \<open>Floating point values\<close>

text \<open>
  A float64 is NaN (which is also how pandas stores a missing value), one of the two
  infinities, or a finite number. The finite numbers are those rationals \<open>m * 2 ^ e\<close>
  with \<open>\<bar>m\<bar> < 2 ^ 53\<close> and \<open>- 1074 \<le> e \<le> 971\<close>. The two zeros are not told
  apart: they compare equal and the cell never divides.
\<close>

datatype float = NaN | NInf | Fin rat | PInf

text \<open>Rounding to the nearest integer, a tie going to the even one.\<close>

definition rhe :: "rat \<Rightarrow> int" where
  "rhe r = (let f = \<lfloor>r\<rfloor>; d = r - of_int f in
     if d < 1 / 2 then f else if 1 / 2 < d then f + 1 else if even f then f else f + 1)"

text \<open>The integer \<open>k\<close> with \<open>2 ^ k \<le> r < 2 ^ (k + 1)\<close>, for positive \<open>r\<close>.\<close>

definition ilog2 :: "rat \<Rightarrow> int" where
  "ilog2 r = (let k = bitlen (fst (quotient_of r)) - bitlen (snd (quotient_of r)) in
     if 2 powi k \<le> r then k else k - 1)"

text \<open>
  The exponent of the last mantissa bit of the binade in which \<open>x\<close> lies: 53 bits of
  precision, and no exponent below that of the subnormal numbers.
\<close>

definition expo :: "rat \<Rightarrow> int" where
  "expo x = (if x = 0 then - 1074 else max (ilog2 \<bar>x\<bar> - 52) (- 1074))"


text \<open>
  IEEE 754 binary64 rounding of an exact result, to nearest with ties to even. The
  largest exponent of a last mantissa bit is 971; a result whose magnitude rounds to
  \<open>2 ^ 53 * 2 ^ 971 = 2 ^ 1024\<close> or lies beyond overflows to an infinity.
\<close>

definition round64 :: "rat \<Rightarrow> float" where
  "round64 x =
     (if x = 0 then Fin 0
      else let e = expo x; m = rhe (x / 2 powi e)
           in if 971 < e \<or> (e = 971 \<and> 2 ^ 53 \<le> \<bar>m\<bar>) then (if 0 < x then PInf else NInf)
              else Fin (of_int m * 2 powi e))"

fun fneg :: "float \<Rightarrow> float" where
  "fneg NaN = NaN"
| "fneg NInf = PInf"
| "fneg (Fin a) = Fin (- a)"
| "fneg PInf = NInf"

fun fadd :: "float \<Rightarrow> float \<Rightarrow> float" where
  "fadd (Fin a) (Fin b) = round64 (a + b)"
| "fadd NaN b = NaN"
| "fadd a NaN = NaN"
| "fadd PInf NInf = NaN"
| "fadd NInf PInf = NaN"
| "fadd PInf b = PInf"
| "fadd NInf b = NInf"
| "fadd (Fin a) b = b"

definition fsub :: "float \<Rightarrow> float \<Rightarrow> float" where
  "fsub a b = fadd a (fneg b)"

fun fsign :: "float \<Rightarrow> int" where
  "fsign NaN = 0"
| "fsign NInf = - 1"
| "fsign (Fin a) = (if a = 0 then 0 else if 0 < a then 1 else - 1)"
| "fsign PInf = 1"

fun fmul :: "float \<Rightarrow> float \<Rightarrow> float" where
  "fmul (Fin a) (Fin b) = round64 (a * b)"
| "fmul NaN b = NaN"
| "fmul a NaN = NaN"
| "fmul a b =
     (if fsign a * fsign b = 0 then NaN else if 0 < fsign a * fsign b then PInf else NInf)"

text \<open>Every ordering comparison with NaN is false.\<close>

fun flt :: "float \<Rightarrow> float \<Rightarrow> bool" where
  "flt (Fin a) (Fin b) = (a < b)"
| "flt NInf (Fin b) = True"
| "flt NInf PInf = True"
| "flt (Fin a) PInf = True"
| "flt a b = False"


definition fgt :: "float \<Rightarrow> float \<Rightarrow> bool" where
  "fgt a b = flt b a"

text \<open>The order in which the non-missing values are sorted.\<close>

fun fkey :: "float \<Rightarrow> int \<times> rat" where
  "fkey NInf = (- 1, 0)"
| "fkey (Fin a) = (0, a)"
| "fkey PInf = (1, 0)"
| "fkey NaN = (2, 0)"

subsection \<open>Tables\<close>

text \<open>
  A column has one dtype. The notebook distinguishes \<open>int64\<close> and \<open>float64\<close> (selected
  by \<open>select_dtypes\<close> in Section 5) from the rest (\<open>object\<close>, selected in Section 6).
  A DataFrame is its row labels and its named columns, in order; a Series is one column
  with the row labels.
\<close>

datatype column = Int64 "int list" | Float64 "float list" | Object "string list"

record dataframe =
  df_index :: "nat list"
  df_columns :: "(string \<times> column) list"

record series =
  s_index :: "nat list"
  s_data :: column

datatype error = KeyError string | TypeError | ValueError

fun col_len :: "column \<Rightarrow> nat" where
  "col_len (Int64 xs) = length xs"
| "col_len (Float64 xs) = length xs"
| "col_len (Object xs) = length xs"

text \<open>Every column of a DataFrame has one cell per row label, and column names are unique.\<close>

definition wf_df :: "dataframe \<Rightarrow> bool" where
  "wf_df df = (distinct (map fst (df_columns df)) \<and>
     list_all (\<lambda>nc. col_len (snd nc) = length (df_index df)) (df_columns df))"

definition bind_res :: "error + 'a \<Rightarrow> ('a \<Rightarrow> error + 'b) \<Rightarrow> error + 'b" where
  "bind_res m f = (case m of Inl e \<Rightarrow> Inl e | Inr x \<Rightarrow> f x)"

text \<open>\<open>df[col]\<close>: the column named \<open>col\<close> as a Series; a missing name raises KeyError.\<close>

definition getitem :: "dataframe \<Rightarrow> string \<Rightarrow> error + series" where
  "getitem df col = (case map_of (df_columns df) col of
       None \<Rightarrow> Inl (KeyError col)
     | Some c \<Rightarrow> Inr \<lparr>s_index = df_index df, s_data = c\<rparr>)"

text \<open>
  The cells of a column as the float64 values on which the quantile and the comparisons
  work: an int64 cell is converted, which rounds beyond \<open>2 ^ 53\<close>. Arithmetic and
  comparison on strings raise TypeError; a column of strings without any row has no
  cell to fail on and behaves as an empty column.
\<close>

fun numeric_values :: "column \<Rightarrow> error + float list" where
  "numeric_values (Int64 xs) = Inr (map (\<lambda>i. round64 (of_int i)) xs)"
| "numeric_values (Float64 xs) = Inr xs"
| "numeric_values (Object xs) = (if xs = [] then Inr [] else Inl TypeError)"

fun is_numeric :: "column \<Rightarrow> bool" where
  "is_numeric (Int64 xs) = True"
| "is_numeric (Float64 xs) = True"
| "is_numeric (Object xs) = False"

text \<open>
  Section 5: \<^verbatim>\<open>numerical_cols = df.select_dtypes(include=['int64', 'float64']).columns\<close>
\<close>

definition select_numerical :: "dataframe \<Rightarrow> string list" where
  "select_numerical df = map fst (filter (\<lambda>nc. is_numeric (snd nc)) (df_columns df))"

subsection \<open>Quantiles\<close>

definition dropna :: "float list \<Rightarrow> float list" where
  "dropna vals = filter (\<lambda>v. v \<noteq> NaN) vals"

text \<open>
  Modelled from the spec: \<open>Series.quantile\<close> is pandas library code and is not under
  \<open>src/\<close>. The spec describes it as the percentile "using linear interpolation between
  order statistics (the conventional definition)": with the \<open>n\<close> values sorted, the
  quantile at \<open>q\<close> sits at the fractional position \<open>(n - 1) * q\<close> and is interpolated
  between the two neighbouring order statistics \<open>a\<close> and \<open>b\<close>. The interpolation is
  carried out in float64 the way the library does it: \<open>a + (b - a) * t\<close>, and
  \<open>b - (b - a) * (1 - t)\<close> from \<open>t = 1/2\<close> on, every operation rounded. The position
  and the weight \<open>t\<close> are exact for the two levels the cell asks for, \<open>0.25\<close> and
  \<open>0.75\<close>.
\<close>

definition lerp :: "float \<Rightarrow> float \<Rightarrow> rat \<Rightarrow> float" where
  "lerp a b t =
     (let d = fsub b a
      in if 1 / 2 \<le> t then fsub b (fmul d (Fin (1 - t))) else fadd a (fmul d (Fin t)))"

definition percentile :: "float list \<Rightarrow> rat \<Rightarrow> float" where
  "percentile xs q =
     (let s = sort_key fkey xs;
          n = length s;
          h = of_nat (n - 1) * q;
          lo = nat \<lfloor>h\<rfloor>;
          hi = min (lo + 1) (n - 1)
      in lerp (s ! lo) (s ! hi) (h - of_nat lo))"

text \<open>
  Modelled from the spec: missing values are excluded from the quantile computation.
  With no value left (an empty or all-missing column) pandas returns NaN.
\<close>

definition quantile :: "float list \<Rightarrow> rat \<Rightarrow> float" where
  "quantile vals q = (case dropna vals of [] \<Rightarrow> NaN | x # xs \<Rightarrow> percentile (x # xs) q)"

text \<open>\<open>s.quantile(q)\<close>: a \<open>q\<close> outside \<open>[0, 1]\<close> raises ValueError.\<close>

definition series_quantile :: "series \<Rightarrow> rat \<Rightarrow> error + float" where
  "series_quantile s q =
     (if q < 0 \<or> 1 < q then Inl ValueError
      else bind_res (numeric_values (s_data s)) (\<lambda>vals. Inr (quantile vals q)))"

subsection \<open>Comparisons and boolean indexing\<close>

text \<open>\<open>s < b\<close> and \<open>s > b\<close>: elementwise, a boolean mask.\<close>

definition series_lt :: "series \<Rightarrow> float \<Rightarrow> error + bool list" where
  "series_lt s b = bind_res (numeric_values (s_data s)) (\<lambda>vals. Inr (map (\<lambda>v. flt v b) vals))"

definition series_gt :: "series \<Rightarrow> float \<Rightarrow> error + bool list" where
  "series_gt s b = bind_res (numeric_values (s_data s)) (\<lambda>vals. Inr (map (\<lambda>v. fgt v b) vals))"

text \<open>\<open>m1 | m2\<close>\<close>

definition mask_or :: "bool list \<Rightarrow> bool list \<Rightarrow> bool list" where
  "mask_or m1 m2 = map (\<lambda>p. fst p \<or> snd p) (zip m1 m2)"

definition select :: "bool list \<Rightarrow> 'a list \<Rightarrow> 'a list" where
  "select m xs = map snd (filter fst (zip m xs))"

fun col_select :: "bool list \<Rightarrow> column \<Rightarrow> column" where
  "col_select m (Int64 xs) = Int64 (select m xs)"
| "col_select m (Float64 xs) = Float64 (select m xs)"
| "col_select m (Object xs) = Object (select m xs)"

text \<open>
  \<open>df[mask]\<close>: the rows whose mask entry is true, with their labels, in order; a mask
  of the wrong length raises ValueError.
\<close>

definition bool_index :: "dataframe \<Rightarrow> bool list \<Rightarrow> error + dataframe" where
  "bool_index df m =
     (if length m \<noteq> length (df_index df) then Inl ValueError
      else Inr \<lparr>df_index = select m (df_index df),
                df_columns = map (\<lambda>nc. (fst nc, col_select m (snd nc))) (df_columns df)\<rparr>)"

definition series_len :: "series \<Rightarrow> nat" where
  "series_len s = length (s_index s)"

fun col_take :: "nat \<Rightarrow> column \<Rightarrow> column" where
  "col_take k (Int64 xs) = Int64 (take k xs)"
| "col_take k (Float64 xs) = Float64 (take k xs)"
| "col_take k (Object xs) = Object (take k xs)"

text \<open>\<open>s.head()\<close>: the first five rows.\<close>

definition series_head :: "series \<Rightarrow> series" where
  "series_head s = \<lparr>s_index = take 5 (s_index s), s_data = col_take 5 (s_data s)\<rparr>"

subsection \<open>The loop body\<close>

record scan_vars =
  Q1 :: float
  Q3 :: float
  IQR :: float
  lower_bound :: float
  upper_bound :: float
  outliers :: series

definition scan :: "dataframe \<Rightarrow> string \<Rightarrow> error + scan_vars" where
  "scan df col =
     bind_res (getitem df col) (\<lambda>s1.
     bind_res (series_quantile s1 (1 / 4)) (\<lambda>q1.
     bind_res (getitem df col) (\<lambda>s2.
     bind_res (series_quantile s2 (3 / 4)) (\<lambda>q3.
       let iqr = fsub q3 q1;
           lb = fsub q1 (fmul (Fin (3 / 2)) iqr);
           ub = fadd q3 (fmul (Fin (3 / 2)) iqr)
       in
     bind_res (getitem df col) (\<lambda>s3.
     bind_res (series_lt s3 lb) (\<lambda>m1.
     bind_res (getitem df col) (\<lambda>s4.
     bind_res (series_gt s4 ub) (\<lambda>m2.
     bind_res (bool_index df (mask_or m1 m2)) (\<lambda>sub.
     bind_res (getitem sub col) (\<lambda>out.
       Inr \<lparr>Q1 = q1, Q3 = q3, IQR = iqr, lower_bound = lb, upper_bound = ub,
            outliers = out\<rparr>))))))))))"

subsection \<open>The cell\<close>

text \<open>
  What the cell prints for one column is the column name, the number of outliers and,
  when there are any, the head of the outlier Series. Nothing in the cell catches an
  exception: when the body raises, the loop ends there, with the reports of the earlier
  columns already printed.
\<close>

type_synonym report = "string \<times> nat \<times> series option"

definition print_report :: "string \<Rightarrow> scan_vars \<Rightarrow> report" where
  "print_report col r =
     (col, series_len (outliers r),
      if series_len (outliers r) > 0 then Some (series_head (outliers r)) else None)"

fun outlier_loop :: "dataframe \<Rightarrow> string list \<Rightarrow> report list \<Rightarrow> report list \<times> error option" where
  "outlier_loop df [] out = (out, None)"
| "outlier_loop df (col # cols) out =
     (case scan df col of
        Inl e \<Rightarrow> (out, Some e)
      | Inr r \<Rightarrow> outlier_loop df cols (out @ [print_report col r]))"

definition outlier_cell :: "dataframe \<Rightarrow> string list \<Rightarrow> report list \<times> error option" where
  "outlier_cell df numerical_cols = outlier_loop df numerical_cols []"

subsection \<open>Auxiliary notions for the statements\<close>

text \<open>
  The mask expression \<open>(df[col] < lower_bound) | (df[col] > upper_bound)\<close> on the
  cells of the column.
\<close>

definition outlier_mask :: "float list \<Rightarrow> float \<Rightarrow> float \<Rightarrow> bool list" where
  "outlier_mask vals lb ub = map (\<lambda>v. flt v lb \<or> fgt v ub) vals"

text \<open>The positions of the rows that lie strictly outside the fence.\<close>

definition flagged :: "float list \<Rightarrow> float \<Rightarrow> float \<Rightarrow> nat list" where
  "flagged vals lb ub = filter (\<lambda>i. flt (vals ! i) lb \<or> fgt (vals ! i) ub) [0..<length vals]"

text \<open>
  Tables for instantiating the theorems: nine rows with an integer column, a float
  column with two missing cells and a column of strings; the same columns without rows;
  one row whose only cell is missing; the float column again under other row labels and
  beside another column; four equal cells; a float column with outliers on both sides;
  integers beyond \<open>2 ^ 53\<close>; four infinite cells; and two cells of magnitude
  \<open>2 ^ 1023\<close>.
\<close>

definition sample_df :: dataframe where
  "sample_df = \<lparr>df_index = [0, 1, 2, 3, 4, 5, 6, 7, 8],
     df_columns =
       [(''x'', Int64 [1, 2, 2, 3, 3, 3, 4, 4, 100]),
        (''y'', Float64 [Fin 1, NaN, Fin 2, Fin 3, Fin (- 40), NaN, Fin 2, Fin 3, Fin 2]),
        (''species'', Object [''a'', ''a'', ''a'', ''b'', ''b'', ''b'', ''c'', ''c'', ''c''])]\<rparr>"

definition empty_df :: dataframe where
  "empty_df = \<lparr>df_index = [],
     df_columns = [(''x'', Int64 []), (''y'', Float64 []), (''species'', Object [])]\<rparr>"


definition relabelled_df :: dataframe where
  "relabelled_df = \<lparr>df_index = [10, 11, 12, 13, 14, 15, 16, 17, 18],
     df_columns =
       [(''name'', Object [''r'', ''s'', ''t'', ''u'', ''v'', ''w'', ''x'', ''y'', ''z'']),
        (''y'', Float64 [Fin 1, NaN, Fin 2, Fin 3, Fin (- 40), NaN, Fin 2, Fin 3, Fin 2])]\<rparr>"






section \<open>Properties\<close>

subsection \<open>Rounding is monotone\<close>

























subsection \<open>Masks and selections\<close>

lemma numeric_values_length: "numeric_values c = Inr vals \<Longrightarrow> length vals = col_len c"
  by (cases c) (auto split: if_splits)

lemma mask_or_map: "mask_or (map f vals) (map g vals) = map (\<lambda>v. f v \<or> g v) vals"
  by (induction vals) (simp_all add: mask_or_def)

lemma map_of_col_map:
  "map_of (map (\<lambda>nc. (fst nc, f (snd nc))) xs) k = map_option f (map_of xs k)"
  by (induction xs) auto

lemma select_nth:
  "length m = length xs \<Longrightarrow> select m xs = map (\<lambda>i. xs ! i) (filter (\<lambda>i. m ! i) [0..<length xs])"
proof (induction xs arbitrary: m rule: rev_induct)
  case Nil
  then show ?case by (simp add: select_def)
next
  case (snoc x xs)
  then obtain m' b where m: "m = m' @ [b]" and l: "length m' = length xs"
    by (cases m rule: rev_cases) auto
  have f: "filter (\<lambda>i. (m' @ [b]) ! i) [0..<length xs] = filter (\<lambda>i. m' ! i) [0..<length xs]"
    using l by (intro filter_cong) (auto simp: nth_append)
  have g: "map (\<lambda>i. (xs @ [x]) ! i) (filter (\<lambda>i. m' ! i) [0..<length xs])
         = map (\<lambda>i. xs ! i) (filter (\<lambda>i. m' ! i) [0..<length xs])"
    by (intro map_cong) (auto simp: nth_append)
  have s: "select (m' @ [b]) (xs @ [x]) = select m' xs @ (if b then [x] else [])"
    using l by (simp add: select_def)
  have "select m (xs @ [x]) = select m' xs @ (if b then [x] else [])"
    by (simp add: m s)
  also have "\<dots> = map (\<lambda>i. (xs @ [x]) ! i) (filter (\<lambda>i. (m' @ [b]) ! i) [0..<length xs])
        @ (if b then [x] else [])"
    by (simp add: snoc.IH [OF l] f g)
  also have "\<dots> = map (\<lambda>i. (xs @ [x]) ! i) (filter (\<lambda>i. m ! i) [0..<length (xs @ [x])])"
    using l by (simp add: m nth_append)
  finally show ?case .
qed

lemma select_length: "length m = length xs \<Longrightarrow> length (select m xs) = length (filter id m)"
  by (induction m xs rule: list_induct2) (simp_all add: select_def)

lemma select_map: "select m (map f xs) = map f (select m xs)"
proof (induction m arbitrary: xs)
  case Nil
  then show ?case by (simp add: select_def)
next
  case (Cons b m)
  then show ?case by (cases xs) (simp_all add: select_def)
qed

lemma numeric_values_select:
  assumes "numeric_values c = Inr vals"
  shows "numeric_values (col_select m c) = Inr (select m vals)"
proof (cases c)
  case (Int64 xs)
  then show ?thesis using assms by (auto simp: select_map)
next
  case (Float64 xs)
  then show ?thesis using assms by simp
next
  case (Object xs)
  then show ?thesis using assms by (auto simp: select_def split: if_splits)
qed

lemma select_outlier_mask:
  assumes "length xs = length vals"
  shows "select (outlier_mask vals lb ub) xs = map (\<lambda>i. xs ! i) (flagged vals lb ub)"
proof -
  have "filter (\<lambda>i. outlier_mask vals lb ub ! i) [0..<length vals] = flagged vals lb ub"
    unfolding flagged_def by (intro filter_cong) (auto simp: outlier_mask_def)
  then show ?thesis
    using assms select_nth [of "outlier_mask vals lb ub" xs] by (simp add: outlier_mask_def)
qed

subsection \<open>The loop body on a numeric column\<close>

lemma scan_numeric:
  assumes c: "map_of (df_columns df) col = Some c"
    and v: "numeric_values c = Inr vals"
    and len: "col_len c = length (df_index df)"
  shows "\<exists>r. scan df col = Inr r \<and>
      Q1 r = quantile vals (1 / 4) \<and> Q3 r = quantile vals (3 / 4) \<and>
      IQR r = fsub (Q3 r) (Q1 r) \<and>
      lower_bound r = fsub (Q1 r) (fmul (Fin (3 / 2)) (IQR r)) \<and>
      upper_bound r = fadd (Q3 r) (fmul (Fin (3 / 2)) (IQR r)) \<and>
      outliers r =
        \<lparr>s_index = select (outlier_mask vals (lower_bound r) (upper_bound r)) (df_index df),
         s_data = col_select (outlier_mask vals (lower_bound r) (upper_bound r)) c\<rparr>"
proof -
  have l: "length vals = length (df_index df)"
    using numeric_values_length [OF v] len by simp
  show ?thesis
    using c v l
    by (simp add: scan_def bind_res_def getitem_def series_quantile_def series_lt_def
        series_gt_def mask_or_map bool_index_def map_of_col_map outlier_mask_def Let_def)
qed

lemma wf_df_col_len:
  assumes "wf_df df" and "map_of (df_columns df) col = Some c"
  shows "col_len c = length (df_index df)"
proof -
  have "(col, c) \<in> set (df_columns df)" using assms(2) by (rule map_of_SomeD)
  then show ?thesis using assms(1) by (auto simp: wf_df_def list_all_iff)
qed


lemma outliers_positions:
  assumes v: "numeric_values c = Inr vals" and l: "length vals = length idx"
  shows "s_index \<lparr>s_index = select (outlier_mask vals lb ub) idx,
                  s_data = col_select (outlier_mask vals lb ub) c\<rparr>
           = map (\<lambda>i. idx ! i) (flagged vals lb ub)"
    and "numeric_values (s_data \<lparr>s_index = select (outlier_mask vals lb ub) idx,
                  s_data = col_select (outlier_mask vals lb ub) c\<rparr>)
           = Inr (map (\<lambda>i. vals ! i) (flagged vals lb ub))"
    and "series_len \<lparr>s_index = select (outlier_mask vals lb ub) idx,
                  s_data = col_select (outlier_mask vals lb ub) c\<rparr>
           = length (flagged vals lb ub)"
  using l by (simp_all add: select_outlier_mask numeric_values_select [OF v] series_len_def)

subsection \<open>Evaluating a quantile\<close>

lemma percentile_eval:
  assumes s: "sort_key fkey xs = s"
    and lo: "of_nat lo \<le> of_nat (length s - 1) * q" "of_nat (length s - 1) * q < of_nat lo + 1"
  shows "percentile xs q =
    lerp (s ! lo) (s ! min (lo + 1) (length s - 1)) (of_nat (length s - 1) * q - of_nat lo)"
proof -
  have "\<lfloor>of_nat (length s - 1) * q\<rfloor> = int lo"
    using lo by (intro floor_unique) simp_all
  then show ?thesis by (simp add: percentile_def s Let_def)
qed


subsection \<open>The fence and the flagged rows\<close>









lemma sample_wf: "wf_df sample_df"
  by (simp add: wf_df_def sample_df_def)

lemma sample_x: "map_of (df_columns sample_df) ''x'' = Some (Int64 [1, 2, 2, 3, 3, 3, 4, 4, 100])"
  by (simp add: sample_df_def)

lemma sample_y: "map_of (df_columns sample_df) ''y'' =
    Some (Float64 [Fin 1, NaN, Fin 2, Fin 3, Fin (- 40), NaN, Fin 2, Fin 3, Fin 2])"
  by (simp add: sample_df_def)

lemma sample_index: "df_index sample_df = [0, 1, 2, 3, 4, 5, 6, 7, 8]"
  by (simp add: sample_df_def)

lemma nine_sorted:
  "sort_key fkey [Fin 1, Fin 2, Fin 2, Fin 3, Fin 3, Fin 3, Fin 4, Fin 4, Fin 100]
     = [Fin 1, Fin 2, Fin 2, Fin 3, Fin 3, Fin 3, Fin 4, Fin 4, Fin 100]"
  by code_simp

lemma nine_quartiles:
  "quantile [Fin 1, Fin 2, Fin 2, Fin 3, Fin 3, Fin 3, Fin 4, Fin 4, Fin 100] (1 / 4) = Fin 2"
  "quantile [Fin 1, Fin 2, Fin 2, Fin 3, Fin 3, Fin 3, Fin 4, Fin 4, Fin 100] (3 / 4) = Fin 4"
proof -
  let ?vals = "[Fin 1, Fin 2, Fin 2, Fin 3, Fin 3, Fin 3, Fin 4, Fin 4, Fin 100]"
  have le: "lerp (Fin 2) (Fin 3) 0 = Fin 2" "lerp (Fin 4) (Fin 4) 0 = Fin 4" by code_simp+
  have "percentile ?vals (1 / 4) = lerp (Fin 2) (Fin 3) 0"
    by (simp add: percentile_eval [OF nine_sorted, of 2])
  then show "quantile ?vals (1 / 4) = Fin 2"
    by (simp add: quantile_def dropna_def le)
  have "percentile ?vals (3 / 4) = lerp (Fin 4) (Fin 4) 0"
    by (simp add: percentile_eval [OF nine_sorted, of 6])
  then show "quantile ?vals (3 / 4) = Fin 4"
    by (simp add: quantile_def dropna_def le)
qed

text \<open>
  Claim C5. A column with the cells \<open>1, 2, 2, 3, 3, 3, 4, 4, 100\<close> gives \<open>Q1 = 2\<close>,
  \<open>Q3 = 4\<close>, \<open>IQR = 2\<close>, the fence \<open>[-1, 7]\<close>, and one outlier: the last row, with the
  cell \<open>100\<close>.
\<close>

theorem scan_nine_values:
  assumes wf: "wf_df df"
    and c: "map_of (df_columns df) col = Some c"
    and v: "numeric_values c = Inr [Fin 1, Fin 2, Fin 2, Fin 3, Fin 3, Fin 3, Fin 4, Fin 4, Fin 100]"
  shows "\<exists>r. scan df col = Inr r \<and>
      Q1 r = Fin 2 \<and> Q3 r = Fin 4 \<and> IQR r = Fin 2 \<and>
      lower_bound r = Fin (- 1) \<and> upper_bound r = Fin 7 \<and>
      s_index (outliers r) = [df_index df ! 8] \<and>
      numeric_values (s_data (outliers r)) = Inr [Fin 100] \<and>
      series_len (outliers r) = 1"
proof -
  let ?vals = "[Fin 1, Fin 2, Fin 2, Fin 3, Fin 3, Fin 3, Fin 4, Fin 4, Fin 100]"
  have len: "col_len c = length (df_index df)" using wf c by (rule wf_df_col_len)
  have l: "length ?vals = length (df_index df)"
    using numeric_values_length [OF v] len by simp
  have a1: "fsub (Fin 4) (Fin 2) = Fin 2" by code_simp
  have a2: "fmul (Fin (3 / 2)) (Fin 2) = Fin 3" by code_simp
  have a3: "fsub (Fin 2) (Fin 3) = Fin (- 1)" by code_simp
  have a4: "fadd (Fin 4) (Fin 3) = Fin 7" by code_simp
  have fl: "flagged ?vals (Fin (- 1)) (Fin 7) = [8]" by code_simp
  obtain r where r: "scan df col = Inr r"
      "Q1 r = quantile ?vals (1 / 4)" "Q3 r = quantile ?vals (3 / 4)"
      "IQR r = fsub (Q3 r) (Q1 r)"
      "lower_bound r = fsub (Q1 r) (fmul (Fin (3 / 2)) (IQR r))"
      "upper_bound r = fadd (Q3 r) (fmul (Fin (3 / 2)) (IQR r))"
      and out: "outliers r =
        \<lparr>s_index = select (outlier_mask ?vals (lower_bound r) (upper_bound r)) (df_index df),
         s_data = col_select (outlier_mask ?vals (lower_bound r) (upper_bound r)) c\<rparr>"
    using scan_numeric [OF c v len] by blast
  have q: "Q1 r = Fin 2" "Q3 r = Fin 4" using r(2,3) by (simp_all only: nine_quartiles)
  have iqr: "IQR r = Fin 2" using r(4) by (simp only: q a1)
  have lb: "lower_bound r = Fin (- 1)" using r(5) by (simp only: q iqr a2 a3)
  have ub: "upper_bound r = Fin 7" using r(6) by (simp only: q iqr a2 a4)
  have p1: "s_index (outliers r) = [df_index df ! 8]"
    using outliers_positions(1) [OF v l, of "Fin (- 1)" "Fin 7"] by (simp add: out lb ub fl)
  have p2: "numeric_values (s_data (outliers r)) = Inr [Fin 100]"
    using outliers_positions(2) [OF v l, of "Fin (- 1)" "Fin 7"] by (simp add: out lb ub fl)
  have p3: "series_len (outliers r) = 1"
    using outliers_positions(3) [OF v l, of "Fin (- 1)" "Fin 7"] by (simp add: out lb ub fl)
  show ?thesis
    using r(1) q iqr lb ub p1 p2 p3 by blast
qed

lemma nine_cast:
  "numeric_values (Int64 [1, 2, 2, 3, 3, 3, 4, 4, 100])
      = Inr [Fin 1, Fin 2, Fin 2, Fin 3, Fin 3, Fin 3, Fin 4, Fin 4, Fin 100]"
  by code_simp

theorem scan_nine_values_witness:
  "wf_df sample_df \<and>
   (\<exists>r. scan sample_df ''x'' = Inr r \<and>
      Q1 r = Fin 2 \<and> Q3 r = Fin 4 \<and> IQR r = Fin 2 \<and>
      lower_bound r = Fin (- 1) \<and> upper_bound r = Fin 7 \<and>
      s_index (outliers r) = [8] \<and>
      numeric_values (s_data (outliers r)) = Inr [Fin 100] \<and>
      series_len (outliers r) = 1)"
proof -
  from scan_nine_values [OF sample_wf sample_x nine_cast]
  show ?thesis
    using sample_wf by (simp add: sample_index)
qed

subsection \<open>A table without rows\<close>

text \<open>
  Claim C2, amended. On a table with zero rows the loop body raises no error: both
  quartiles, the range and both bounds are NaN, the outlier Series is empty and the
  printed count is \<open>0\<close>.
\<close>

theorem scan_zero_rows:
  assumes wf: "wf_df df"
    and z: "df_index df = []"
    and c: "map_of (df_columns df) col = Some c"
    and v: "numeric_values c = Inr vals"
  shows "\<exists>r. scan df col = Inr r \<and>
      Q1 r = NaN \<and> Q3 r = NaN \<and> IQR r = NaN \<and> lower_bound r = NaN \<and> upper_bound r = NaN \<and>
      s_index (outliers r) = [] \<and> series_len (outliers r) = 0"
proof -
  have len: "col_len c = length (df_index df)" using wf c by (rule wf_df_col_len)
  have e: "vals = []" using numeric_values_length [OF v] len z by simp
  obtain r where r: "scan df col = Inr r"
      "Q1 r = quantile vals (1 / 4)" "Q3 r = quantile vals (3 / 4)"
      "IQR r = fsub (Q3 r) (Q1 r)"
      "lower_bound r = fsub (Q1 r) (fmul (Fin (3 / 2)) (IQR r))"
      "upper_bound r = fadd (Q3 r) (fmul (Fin (3 / 2)) (IQR r))"
      and out: "outliers r =
        \<lparr>s_index = select (outlier_mask vals (lower_bound r) (upper_bound r)) (df_index df),
         s_data = col_select (outlier_mask vals (lower_bound r) (upper_bound r)) c\<rparr>"
    using scan_numeric [OF c v len] by blast
  have q: "Q1 r = NaN" "Q3 r = NaN" using r(2,3) by (simp_all add: e quantile_def dropna_def)
  show ?thesis
    using r(1,4-6) q by (intro exI [of _ r]) (simp add: out z select_def series_len_def fsub_def)
qed

lemma empty_wf: "wf_df empty_df"
  by (simp add: wf_df_def empty_df_def)

theorem scan_zero_rows_witness:
  "wf_df empty_df \<and> df_index empty_df = [] \<and>
   (\<exists>r. scan empty_df ''y'' = Inr r \<and> Q1 r = NaN \<and> upper_bound r = NaN \<and>
      series_len (outliers r) = 0)"
proof -
  have z: "df_index empty_df = []" by (simp add: empty_df_def)
  have c: "map_of (df_columns empty_df) ''y'' = Some (Float64 [])" by (simp add: empty_df_def)
  have v: "numeric_values (Float64 []) = Inr []" by simp
  from scan_zero_rows [OF empty_wf z c v]
  show ?thesis using empty_wf z by blast
qed

text \<open>
  Claim C2 as stated fails: on the table \<open>empty_df\<close>, which has no rows, scanning the
  column \<open>x\<close> returns a result and not an error.
\<close>

theorem scan_zero_rows_no_error:
  "\<not> isl (scan empty_df ''x'') \<and>
   scan empty_df ''x'' =
     Inr \<lparr>Q1 = NaN, Q3 = NaN, IQR = NaN, lower_bound = NaN, upper_bound = NaN,
          outliers = \<lparr>s_index = [], s_data = Int64 []\<rparr>\<rparr>"
  by (simp add: empty_df_def scan_def bind_res_def getitem_def series_quantile_def quantile_def
      dropna_def series_lt_def series_gt_def mask_or_def bool_index_def select_def fsub_def Let_def)

subsection \<open>The order of the two bounds\<close>








subsection \<open>A constant column\<close>










subsection \<open>Missing values\<close>

lemma dropna_filter: "dropna (filter (\<lambda>x. x \<noteq> NaN) vals) = dropna vals"
  by (simp add: dropna_def)

lemma quantile_filter: "quantile (filter (\<lambda>x. x \<noteq> NaN) vals) q = quantile vals q"
  by (simp add: quantile_def dropna_filter)

lemma select_Cons: "select (b # m) (x # xs) = (if b then x # select m xs else select m xs)"
  by (simp add: select_def)

lemma select_map_self: "select (map P vals) vals = filter P vals"
  by (induction vals) (simp_all add: select_Cons, simp add: select_def)

lemma select_select:
  assumes "length vals = length xs" and "\<And>v. P v \<Longrightarrow> N v"
  shows "select (map P (select (map N vals) vals)) (select (map N vals) xs) = select (map P vals) xs"
  using assms
proof (induction vals xs rule: list_induct2)
  case Nil
  then show ?case by (simp add: select_def)
next
  case (Cons v vals x xs)
  then show ?case by (auto simp: select_Cons)
qed

lemma outlier_mask_notna: "flt v lb \<or> fgt v ub \<Longrightarrow> v \<noteq> NaN"
  by (cases lb; cases ub) (auto simp: fgt_def)

lemma flagged_not_missing:
  "list_all (\<lambda>i. vals ! i \<noteq> NaN) (flagged vals lb ub)"
  unfolding list_all_iff flagged_def using outlier_mask_notna by auto

lemma col_select_select:
  assumes v: "numeric_values c = Inr vals"
  shows "col_select (outlier_mask (select (map (\<lambda>x. x \<noteq> NaN) vals) vals) lb ub)
           (col_select (map (\<lambda>x. x \<noteq> NaN) vals) c)
         = col_select (outlier_mask vals lb ub) c"
proof (cases c)
  case (Int64 xs)
  then have "length vals = length xs" using v by auto
  then show ?thesis
    using select_select [of vals xs "\<lambda>v. flt v lb \<or> fgt v ub" "\<lambda>x. x \<noteq> NaN"] outlier_mask_notna
    by (simp add: Int64 outlier_mask_def)
next
  case (Float64 xs)
  then have "vals = xs" using v by simp
  then show ?thesis
    using select_select [of vals xs "\<lambda>v. flt v lb \<or> fgt v ub" "\<lambda>x. x \<noteq> NaN"] outlier_mask_notna
    by (simp add: Float64 outlier_mask_def)
next
  case (Object xs)
  then show ?thesis using v by (auto simp: select_def split: if_splits)
qed

text \<open>
  Claim C7. The quartiles of a column are those of its non-missing cells; no flagged
  row has a missing cell, and the count is the number of flagged rows; and scanning
  the table from which the rows with a missing cell in the column were removed gives
  the very same result.
\<close>

theorem missing_values_excluded:
  assumes wf: "wf_df df"
    and c: "map_of (df_columns df) col = Some c"
    and v: "numeric_values c = Inr vals"
  shows "\<exists>r df'. scan df col = Inr r \<and>
      Q1 r = quantile (filter (\<lambda>x. x \<noteq> NaN) vals) (1 / 4) \<and>
      Q3 r = quantile (filter (\<lambda>x. x \<noteq> NaN) vals) (3 / 4) \<and>
      list_all (\<lambda>i. vals ! i \<noteq> NaN) (flagged vals (lower_bound r) (upper_bound r)) \<and>
      series_len (outliers r) = length (flagged vals (lower_bound r) (upper_bound r)) \<and>
      bool_index df (map (\<lambda>x. x \<noteq> NaN) vals) = Inr df' \<and>
      scan df' col = Inr r"
proof -
  let ?m = "map (\<lambda>x. x \<noteq> NaN) vals"
  let ?df' = "\<lparr>df_index = select ?m (df_index df),
      df_columns = map (\<lambda>nc. (fst nc, col_select ?m (snd nc))) (df_columns df)\<rparr>"
  have len: "col_len c = length (df_index df)" using wf c by (rule wf_df_col_len)
  have l: "length vals = length (df_index df)"
    using numeric_values_length [OF v] len by simp
  obtain r where r: "scan df col = Inr r"
      "Q1 r = quantile vals (1 / 4)" "Q3 r = quantile vals (3 / 4)"
      "IQR r = fsub (Q3 r) (Q1 r)"
      "lower_bound r = fsub (Q1 r) (fmul (Fin (3 / 2)) (IQR r))"
      "upper_bound r = fadd (Q3 r) (fmul (Fin (3 / 2)) (IQR r))"
      and out: "outliers r =
        \<lparr>s_index = select (outlier_mask vals (lower_bound r) (upper_bound r)) (df_index df),
         s_data = col_select (outlier_mask vals (lower_bound r) (upper_bound r)) c\<rparr>"
    using scan_numeric [OF c v len] by blast
  have bi: "bool_index df ?m = Inr ?df'" using l by (simp add: bool_index_def)
  have c': "map_of (df_columns ?df') col = Some (col_select ?m c)"
    by (simp add: map_of_col_map c)
  have v': "numeric_values (col_select ?m c) = Inr (filter (\<lambda>x. x \<noteq> NaN) vals)"
    using numeric_values_select [OF v, of ?m] by (simp add: select_map_self)
  have "length (select ?m vals) = length (select ?m (df_index df))"
    using l by (simp add: select_length)
  then have len': "col_len (col_select ?m c) = length (df_index ?df')"
    using numeric_values_length [OF v'] by (simp add: select_map_self)
  obtain r' where r': "scan ?df' col = Inr r'"
      "Q1 r' = quantile (filter (\<lambda>x. x \<noteq> NaN) vals) (1 / 4)"
      "Q3 r' = quantile (filter (\<lambda>x. x \<noteq> NaN) vals) (3 / 4)"
      "IQR r' = fsub (Q3 r') (Q1 r')"
      "lower_bound r' = fsub (Q1 r') (fmul (Fin (3 / 2)) (IQR r'))"
      "upper_bound r' = fadd (Q3 r') (fmul (Fin (3 / 2)) (IQR r'))"
      and out': "outliers r' =
        \<lparr>s_index = select (outlier_mask (filter (\<lambda>x. x \<noteq> NaN) vals) (lower_bound r') (upper_bound r'))
            (df_index ?df'),
         s_data = col_select (outlier_mask (filter (\<lambda>x. x \<noteq> NaN) vals) (lower_bound r') (upper_bound r'))
            (col_select ?m c)\<rparr>"
    using scan_numeric [OF c' v' len'] by blast
  have q1: "Q1 r' = Q1 r" using r(2) r'(2) by (simp add: quantile_filter)
  have q3: "Q3 r' = Q3 r" using r(3) r'(3) by (simp add: quantile_filter)
  have iqr: "IQR r' = IQR r" using r(4) r'(4) q1 q3 by simp
  have lb: "lower_bound r' = lower_bound r" using r(5) r'(5) q1 iqr by simp
  have ub: "upper_bound r' = upper_bound r" using r(6) r'(6) q3 iqr by simp
  have ix: "select (outlier_mask (filter (\<lambda>x. x \<noteq> NaN) vals) (lower_bound r) (upper_bound r))
              (select ?m (df_index df))
          = select (outlier_mask vals (lower_bound r) (upper_bound r)) (df_index df)"
    using select_select [OF l, of "\<lambda>v. flt v (lower_bound r) \<or> fgt v (upper_bound r)" "\<lambda>x. x \<noteq> NaN"]
      outlier_mask_notna
    by (simp add: outlier_mask_def select_map_self)
  have dt: "col_select (outlier_mask (filter (\<lambda>x. x \<noteq> NaN) vals) (lower_bound r) (upper_bound r))
              (col_select ?m c)
          = col_select (outlier_mask vals (lower_bound r) (upper_bound r)) c"
    using col_select_select [OF v, of "lower_bound r" "upper_bound r"] by (simp add: select_map_self)
  have o: "outliers r' = outliers r"
    by (simp add: out out' lb ub ix dt)
  have eq: "r' = r"
    using q1 q3 iqr lb ub o by (cases r; cases r') simp
  have cnt: "series_len (outliers r) = length (flagged vals (lower_bound r) (upper_bound r))"
    using outliers_positions(3) [OF v l] by (simp add: out)
  show ?thesis
    using r(1) r(2,3) flagged_not_missing cnt bi r'(1)
    by (intro exI [of _ r] exI [of _ ?df']) (simp add: quantile_filter eq)
qed


lemma sample_y_sorted:
  "sort_key fkey [Fin 1, Fin 2, Fin 3, Fin (- 40), Fin 2, Fin 3, Fin 2]
     = [Fin (- 40), Fin 1, Fin 2, Fin 2, Fin 2, Fin 3, Fin 3]"
  by code_simp

lemma sample_y_quartiles:
  "quantile [Fin 1, NaN, Fin 2, Fin 3, Fin (- 40), NaN, Fin 2, Fin 3, Fin 2] (1 / 4) = Fin (3 / 2)"
  "quantile [Fin 1, NaN, Fin 2, Fin 3, Fin (- 40), NaN, Fin 2, Fin 3, Fin 2] (3 / 4) = Fin (5 / 2)"
proof -
  let ?vals = "[Fin 1, NaN, Fin 2, Fin 3, Fin (- 40), NaN, Fin 2, Fin 3, Fin 2]"
  let ?xs = "[Fin 1, Fin 2, Fin 3, Fin (- 40), Fin 2, Fin 3, Fin 2]"
  have le: "lerp (Fin 1) (Fin 2) (1 / 2) = Fin (3 / 2)" "lerp (Fin 2) (Fin 3) (1 / 2) = Fin (5 / 2)"
    by code_simp+
  have "percentile ?xs (1 / 4) = lerp (Fin 1) (Fin 2) (1 / 2)"
    using percentile_eval [OF sample_y_sorted, of 1 "1 / 4"] by simp
  then show "quantile ?vals (1 / 4) = Fin (3 / 2)"
    by (simp add: quantile_def dropna_def le)
  have "percentile ?xs (3 / 4) = lerp (Fin 2) (Fin 3) (1 / 2)"
    using percentile_eval [OF sample_y_sorted, of 4 "3 / 4"] by simp
  then show "quantile ?vals (3 / 4) = Fin (5 / 2)"
    by (simp add: quantile_def dropna_def le)
qed

lemma sample_y_bounds:
  "\<exists>r. scan sample_df ''y'' = Inr r \<and> lower_bound r = Fin 0 \<and> upper_bound r = Fin 4"
proof -
  let ?vals = "[Fin 1, NaN, Fin 2, Fin 3, Fin (- 40), NaN, Fin 2, Fin 3, Fin 2]"
  have v: "numeric_values (Float64 ?vals) = Inr ?vals" by simp
  have len: "col_len (Float64 ?vals) = length (df_index sample_df)"
    by (simp add: sample_index)
  have a1: "fsub (Fin (5 / 2)) (Fin (3 / 2)) = Fin 1" by code_simp
  have a2: "fmul (Fin (3 / 2)) (Fin 1) = Fin (3 / 2)" by code_simp
  have a3: "fsub (Fin (3 / 2)) (Fin (3 / 2)) = Fin 0" by code_simp
  have a4: "fadd (Fin (5 / 2)) (Fin (3 / 2)) = Fin 4" by code_simp
  obtain r where r: "scan sample_df ''y'' = Inr r"
      "Q1 r = quantile ?vals (1 / 4)" "Q3 r = quantile ?vals (3 / 4)"
      "IQR r = fsub (Q3 r) (Q1 r)"
      "lower_bound r = fsub (Q1 r) (fmul (Fin (3 / 2)) (IQR r))"
      "upper_bound r = fadd (Q3 r) (fmul (Fin (3 / 2)) (IQR r))"
    using scan_numeric [OF sample_y v len] by blast
  have q: "Q1 r = Fin (3 / 2)" "Q3 r = Fin (5 / 2)" using r(2,3) by (simp_all only: sample_y_quartiles)
  have iqr: "IQR r = Fin 1" using r(4) by (simp only: q a1)
  have "lower_bound r = Fin 0" using r(5) by (simp only: q iqr a2 a3)
  moreover have "upper_bound r = Fin 4" using r(6) by (simp only: q iqr a2 a4)
  ultimately show ?thesis using r(1) by blast
qed

theorem missing_values_excluded_witness:
  "wf_df sample_df \<and>
   (\<exists>r df'. scan sample_df ''y'' = Inr r \<and>
      Q1 r = quantile [Fin 1, Fin 2, Fin 3, Fin (- 40), Fin 2, Fin 3, Fin 2] (1 / 4) \<and>
      Q3 r = quantile [Fin 1, Fin 2, Fin 3, Fin (- 40), Fin 2, Fin 3, Fin 2] (3 / 4) \<and>
      series_len (outliers r) = 1 \<and>
      bool_index sample_df [True, False, True, True, True, False, True, True, True] = Inr df' \<and>
      scan df' ''y'' = Inr r)"
proof -
  let ?vals = "[Fin 1, NaN, Fin 2, Fin 3, Fin (- 40), NaN, Fin 2, Fin 3, Fin 2]"
  have v: "numeric_values (Float64 ?vals) = Inr ?vals" by simp
  obtain r df' where r: "scan sample_df ''y'' = Inr r"
      "Q1 r = quantile (filter (\<lambda>x. x \<noteq> NaN) ?vals) (1 / 4)"
      "Q3 r = quantile (filter (\<lambda>x. x \<noteq> NaN) ?vals) (3 / 4)"
      "series_len (outliers r) = length (flagged ?vals (lower_bound r) (upper_bound r))"
      "bool_index sample_df (map (\<lambda>x. x \<noteq> NaN) ?vals) = Inr df'"
      "scan df' ''y'' = Inr r"
    using missing_values_excluded [OF sample_wf sample_y v] by blast
  obtain r0 where r0: "scan sample_df ''y'' = Inr r0" "lower_bound r0 = Fin 0" "upper_bound r0 = Fin 4"
    using sample_y_bounds by blast
  have b: "lower_bound r = Fin 0" "upper_bound r = Fin 4" using r(1) r0 by simp_all
  have fl: "flagged ?vals (Fin 0) (Fin 4) = [4]" by code_simp
  have n: "series_len (outliers r) = 1" using r(4) by (simp add: b fl)
  show ?thesis
    using sample_wf r(1,2,3,5,6) n by (intro conjI exI [of _ r] exI [of _ df']) simp_all
qed

subsection \<open>Only the selected column matters\<close>

text \<open>
  Claim C10. Two tables whose column \<open>col\<close> holds the same cells give the same
  quartiles and bounds, the same count, the same outlier cells, and flag the same row
  positions, whatever their other columns and row labels are.
\<close>

theorem scan_reads_one_column:
  assumes wf1: "wf_df df1" and wf2: "wf_df df2"
    and c1: "map_of (df_columns df1) col = Some c1"
    and c2: "map_of (df_columns df2) col = Some c2"
    and v1: "numeric_values c1 = Inr vals"
    and v2: "numeric_values c2 = Inr vals"
  shows "\<exists>r1 r2. scan df1 col = Inr r1 \<and> scan df2 col = Inr r2 \<and>
      Q1 r1 = Q1 r2 \<and> Q3 r1 = Q3 r2 \<and> IQR r1 = IQR r2 \<and>
      lower_bound r1 = lower_bound r2 \<and> upper_bound r1 = upper_bound r2 \<and>
      series_len (outliers r1) = series_len (outliers r2) \<and>
      numeric_values (s_data (outliers r1)) = numeric_values (s_data (outliers r2)) \<and>
      s_index (outliers r1) =
        map (\<lambda>i. df_index df1 ! i) (flagged vals (lower_bound r1) (upper_bound r1)) \<and>
      s_index (outliers r2) =
        map (\<lambda>i. df_index df2 ! i) (flagged vals (lower_bound r1) (upper_bound r1))"
proof -
  have len1: "col_len c1 = length (df_index df1)" using wf1 c1 by (rule wf_df_col_len)
  have len2: "col_len c2 = length (df_index df2)" using wf2 c2 by (rule wf_df_col_len)
  have l1: "length vals = length (df_index df1)"
    using numeric_values_length [OF v1] len1 by simp
  have l2: "length vals = length (df_index df2)"
    using numeric_values_length [OF v2] len2 by simp
  obtain r1 where r1: "scan df1 col = Inr r1"
      "Q1 r1 = quantile vals (1 / 4)" "Q3 r1 = quantile vals (3 / 4)"
      "IQR r1 = fsub (Q3 r1) (Q1 r1)"
      "lower_bound r1 = fsub (Q1 r1) (fmul (Fin (3 / 2)) (IQR r1))"
      "upper_bound r1 = fadd (Q3 r1) (fmul (Fin (3 / 2)) (IQR r1))"
      and out1: "outliers r1 =
        \<lparr>s_index = select (outlier_mask vals (lower_bound r1) (upper_bound r1)) (df_index df1),
         s_data = col_select (outlier_mask vals (lower_bound r1) (upper_bound r1)) c1\<rparr>"
    using scan_numeric [OF c1 v1 len1] by blast
  obtain r2 where r2: "scan df2 col = Inr r2"
      "Q1 r2 = quantile vals (1 / 4)" "Q3 r2 = quantile vals (3 / 4)"
      "IQR r2 = fsub (Q3 r2) (Q1 r2)"
      "lower_bound r2 = fsub (Q1 r2) (fmul (Fin (3 / 2)) (IQR r2))"
      "upper_bound r2 = fadd (Q3 r2) (fmul (Fin (3 / 2)) (IQR r2))"
      and out2: "outliers r2 =
        \<lparr>s_index = select (outlier_mask vals (lower_bound r2) (upper_bound r2)) (df_index df2),
         s_data = col_select (outlier_mask vals (lower_bound r2) (upper_bound r2)) c2\<rparr>"
    using scan_numeric [OF c2 v2 len2] by blast
  have q1: "Q1 r1 = Q1 r2" using r1(2) r2(2) by simp
  have q3: "Q3 r1 = Q3 r2" using r1(3) r2(3) by simp
  have iqr: "IQR r1 = IQR r2" using r1(4) r2(4) q1 q3 by simp
  have lb: "lower_bound r1 = lower_bound r2" using r1(5) r2(5) q1 iqr by simp
  have ub: "upper_bound r1 = upper_bound r2" using r1(6) r2(6) q3 iqr by simp
  have n: "series_len (outliers r1) = series_len (outliers r2)"
    using outliers_positions(3) [OF v1 l1] outliers_positions(3) [OF v2 l2]
    by (simp add: out1 out2 lb ub)
  have d: "numeric_values (s_data (outliers r1)) = numeric_values (s_data (outliers r2))"
    using outliers_positions(2) [OF v1 l1] outliers_positions(2) [OF v2 l2]
    by (simp add: out1 out2 lb ub)
  have i1: "s_index (outliers r1) =
      map (\<lambda>i. df_index df1 ! i) (flagged vals (lower_bound r1) (upper_bound r1))"
    using outliers_positions(1) [OF v1 l1] by (simp add: out1)
  have i2: "s_index (outliers r2) =
      map (\<lambda>i. df_index df2 ! i) (flagged vals (lower_bound r1) (upper_bound r1))"
    using outliers_positions(1) [OF v2 l2] by (simp add: out2 lb ub)
  show ?thesis
    using r1(1) r2(1) q1 q3 iqr lb ub n d i1 i2 by blast
qed

lemma relabelled_wf: "wf_df relabelled_df"
  by (simp add: wf_df_def relabelled_df_def)

theorem scan_reads_one_column_witness:
  "wf_df sample_df \<and> wf_df relabelled_df \<and>
   (\<exists>r1 r2. scan sample_df ''y'' = Inr r1 \<and> scan relabelled_df ''y'' = Inr r2 \<and>
      lower_bound r1 = lower_bound r2 \<and> upper_bound r1 = upper_bound r2 \<and>
      series_len (outliers r1) = series_len (outliers r2) \<and>
      numeric_values (s_data (outliers r1)) = numeric_values (s_data (outliers r2)))"
proof -
  let ?vals = "[Fin 1, NaN, Fin 2, Fin 3, Fin (- 40), NaN, Fin 2, Fin 3, Fin 2]"
  have v: "numeric_values (Float64 ?vals) = Inr ?vals" by simp
  have c2: "map_of (df_columns relabelled_df) ''y'' = Some (Float64 ?vals)"
    by (simp add: relabelled_df_def)
  from scan_reads_one_column [OF sample_wf relabelled_wf sample_y c2 v v]
  obtain r1 r2 where "scan sample_df ''y'' = Inr r1" "scan relabelled_df ''y'' = Inr r2"
      "lower_bound r1 = lower_bound r2" "upper_bound r1 = upper_bound r2"
      "series_len (outliers r1) = series_len (outliers r2)"
      "numeric_values (s_data (outliers r1)) = numeric_values (s_data (outliers r2))"
    by blast
  then show ?thesis
    using sample_wf relabelled_wf by blast
qed

subsection \<open>The columns that Section 5 selects\<close>

lemma select_numerical_lookup:
  assumes wf: "wf_df df" and m: "col \<in> set (select_numerical df)"
  shows "\<exists>c vals. map_of (df_columns df) col = Some c \<and> numeric_values c = Inr vals"
proof -
  obtain c where c: "(col, c) \<in> set (df_columns df)" "is_numeric c"
    using m by (auto simp: select_numerical_def)
  have "map_of (df_columns df) col = Some c"
    using wf c(1) by (simp add: wf_df_def)
  moreover obtain vals where "numeric_values c = Inr vals"
    using c(2) by (cases c) auto
  ultimately show ?thesis by blast
qed

lemma scan_selected:
  assumes wf: "wf_df df" and m: "col \<in> set (select_numerical df)"
  shows "\<exists>r. scan df col = Inr r"
proof -
  obtain c vals where c: "map_of (df_columns df) col = Some c" and v: "numeric_values c = Inr vals"
    using select_numerical_lookup [OF wf m] by blast
  have len: "col_len c = length (df_index df)" using wf c by (rule wf_df_col_len)
  show ?thesis using scan_numeric [OF c v len] by blast
qed

lemma outlier_loop_selected:
  assumes wf: "wf_df df" and sub: "set cols \<subseteq> set (select_numerical df)"
  shows "\<exists>new. outlier_loop df cols out = (out @ new, None) \<and> map fst new = cols"
  using sub
proof (induction cols arbitrary: out)
  case Nil
  then show ?case by simp
next
  case (Cons col cols)
  then have m: "col \<in> set (select_numerical df)" and sub': "set cols \<subseteq> set (select_numerical df)"
    by simp_all
  obtain r where r: "scan df col = Inr r" using scan_selected [OF wf m] by blast
  obtain new where o:
      "outlier_loop df cols (out @ [print_report col r]) = ((out @ [print_report col r]) @ new, None)"
      "map fst new = cols"
    using Cons.IH [OF sub'] by blast
  have "outlier_loop df (col # cols) out = (out @ (print_report col r # new), None)"
    using r o(1) by simp
  moreover have "map fst (print_report col r # new) = col # cols"
    using o(2) by (simp add: print_report_def)
  ultimately show ?case
    by (intro exI [of _ "print_report col r # new"] conjI)
qed

text \<open>
  The notebook runs the loop over the columns that Section 5 selected, the \<open>int64\<close>
  and \<open>float64\<close> columns of the table itself: on those the cell raises nothing and
  prints one report per column, in table order.
\<close>

lemma outlier_cell_selected:
  assumes "wf_df df"
  shows "\<exists>out. outlier_cell df (select_numerical df) = (out, None) \<and>
      map fst out = select_numerical df"
  using outlier_loop_selected [OF assms subset_refl, of "[]"] by (simp add: outlier_cell_def)

subsection \<open>Columns that cannot be scanned\<close>

text \<open>
  Claim C3, amended. When the requested column does not exist in the table, the loop
  body fails in its first statement with KeyError; when it is a column of strings with
  at least one row, it fails there with TypeError. Nothing catches the error: the loop
  ends at that column, with the reports of the earlier columns printed and none for this
  or any later column.
\<close>

theorem scan_invalid_column:
  "(map_of (df_columns df) col = None \<longrightarrow> scan df col = Inl (KeyError col)) \<and>
   (\<forall>xs. map_of (df_columns df) col = Some (Object xs) \<longrightarrow> xs \<noteq> [] \<longrightarrow>
      scan df col = Inl TypeError) \<and>
   (\<forall>e cols out. scan df col = Inl e \<longrightarrow>
      outlier_loop df (col # cols) out = (out, Some e)) \<and>
   (\<forall>r cols out. scan df col = Inr r \<longrightarrow>
      outlier_loop df (col # cols) out = outlier_loop df cols (out @ [print_report col r]))"
  by (simp add: scan_def bind_res_def getitem_def series_quantile_def)

theorem scan_invalid_column_witness:
  "map_of (df_columns sample_df) ''nope'' = None \<and>
   scan sample_df ''nope'' = Inl (KeyError ''nope'') \<and>
   map_of (df_columns sample_df) ''species'' =
     Some (Object [''a'', ''a'', ''a'', ''b'', ''b'', ''b'', ''c'', ''c'', ''c'']) \<and>
   scan sample_df ''species'' = Inl TypeError \<and>
   (\<exists>r. scan sample_df ''x'' = Inr r \<and>
      outlier_cell sample_df [''x'', ''species'', ''y''] = ([print_report ''x'' r], Some TypeError))"
proof -
  let ?xs = "[''a'', ''a'', ''a'', ''b'', ''b'', ''b'', ''c'', ''c'', ''c'']"
  have n: "map_of (df_columns sample_df) ''nope'' = None" by (simp add: sample_df_def)
  have s: "map_of (df_columns sample_df) ''species'' = Some (Object ?xs)"
    by (simp add: sample_df_def)
  have ne: "?xs \<noteq> []" by simp
  have k: "scan sample_df ''nope'' = Inl (KeyError ''nope'')"
    using scan_invalid_column [of sample_df "''nope''"] n by blast
  have t: "scan sample_df ''species'' = Inl TypeError"
    using scan_invalid_column [of sample_df "''species''"] s ne by blast
  have stop: "outlier_loop sample_df (''species'' # cols) out = (out, Some TypeError)" for cols out
    using scan_invalid_column [of sample_df "''species''"] t by blast
  obtain r where r: "scan sample_df ''x'' = Inr r"
    using scan_numeric [OF sample_x nine_cast] by (auto simp: sample_index)
  have "outlier_loop sample_df (''x'' # cols) out
      = outlier_loop sample_df cols (out @ [print_report ''x'' r])" for cols out
    using scan_invalid_column [of sample_df "''x''"] r by blast
  then have "outlier_cell sample_df [''x'', ''species'', ''y''] = ([print_report ''x'' r], Some TypeError)"
    by (simp only: outlier_cell_def stop append_Nil)
  then show ?thesis using n k s t r by blast
qed

text \<open>
  Claim C3 as stated fails: in \<open>empty_df\<close> the column \<open>species\<close> is a column of strings,
  hence not numeric, and scanning it raises nothing: with no row there is no cell to
  fail on, the quartiles and bounds are NaN and the outlier Series is empty.
\<close>

theorem scan_empty_strings:
  "map_of (df_columns empty_df) ''species'' = Some (Object []) \<and>
   \<not> is_numeric (Object []) \<and>
   \<not> isl (scan empty_df ''species'') \<and>
   scan empty_df ''species'' =
     Inr \<lparr>Q1 = NaN, Q3 = NaN, IQR = NaN, lower_bound = NaN, upper_bound = NaN,
          outliers = \<lparr>s_index = [], s_data = Object []\<rparr>\<rparr>"
  by (simp add: empty_df_def scan_def bind_res_def getitem_def series_quantile_def quantile_def
      dropna_def series_lt_def series_gt_def mask_or_def bool_index_def select_def fsub_def Let_def)

end
